theory Spec2Isabelle
  imports Complex_Main "HOL-Library.AList"
begin

section \<open>Bar and histogram utilities of plotext (\<open>plotext/_utility/bar.py\<close>)\<close>

text \<open>
  The module holds five pure list functions. Every exception the code can raise is a value
  of \<open>py_error\<close>, returned on the left of a sum. A Python \<open>int\<close> is an \<^typ>\<open>int\<close>. In
  \<open>update_bar_ylim\<close> and \<open>hist_data\<close> a comparison or a list index depends on the result
  of float arithmetic, so there a \<open>float\<close> is a binary64 value and every operation rounds
  as the interpreter does. The polygons of \<open>bars\<close> are described by the exact values of the
  expressions that compute them.
\<close>

subsection \<open>Python values and failures\<close>

datatype py_error = ZeroDivisionError | IndexError | OverflowError | ValueError

text \<open>
  A \<open>float\<close>: a finite value, an infinity or a NaN. The sign of a zero is not kept: no
  operation of the module tells \<open>-0.0\<close> from \<open>0.0\<close>.
\<close>

datatype pyfloat = Fin real | PInf | NInf | NaN

datatype pynum = PyInt int | PyFloat pyfloat

text \<open>An element of the \<open>x\<close> column of a bar plot: a number or a string.\<close>

datatype xval = Num pynum | Str string

text \<open>\<open>type(el) == str\<close>\<close>

fun is_str :: "xval \<Rightarrow> bool" where
  "is_str (Str s) = True"
| "is_str (Num n) = False"

text \<open>
  \<open>str(el)\<close>: a string is its own text; the text of a number is what the built-in
  \<open>str\<close> prints, which is a parameter \<open>num_str\<close> of the model.
\<close>

fun py_str :: "(pynum \<Rightarrow> string) \<Rightarrow> xval \<Rightarrow> string" where
  "py_str num_str (Str s) = s"
| "py_str num_str (Num n) = num_str n"

text \<open>
  The division \<open>(max(x) - min(x)) / (bins - 1)\<close> of \<open>bars\<close> on exact values; it raises on
  a zero divisor.
\<close>

definition py_div :: "real \<Rightarrow> real \<Rightarrow> py_error + real" where
  "py_div a b = (if b = 0 then Inl ZeroDivisionError else Inr (a / b))"

text \<open>
  The position a subscript \<open>xs[i]\<close> denotes: a negative index counts from the end, and
  an index outside the list raises \<open>IndexError\<close>.
\<close>

definition list_index :: "'a list \<Rightarrow> int \<Rightarrow> py_error + nat" where
  "list_index xs i =
     (if 0 \<le> i \<and> i < int (length xs) then Inr (nat i)
      else if i < 0 \<and> - int (length xs) \<le> i then Inr (nat (int (length xs) + i))
      else Inl IndexError)"

text \<open>
  A list comprehension whose element expression may raise: the first failure ends the
  comprehension.
\<close>

fun comprehension :: "('a \<Rightarrow> py_error + 'b) \<Rightarrow> 'a list \<Rightarrow> py_error + 'b list" where
  "comprehension f [] = Inr []"
| "comprehension f (el # els) =
     (case f el of
        Inl e \<Rightarrow> Inl e
      | Inr v \<Rightarrow> (case comprehension f els of Inl e \<Rightarrow> Inl e | Inr vs \<Rightarrow> Inr (v # vs)))"

subsection \<open>Binary floating point\<close>

text \<open>
  The unit in the last place of a binary64 value near \<open>x\<close> is \<open>2\<^sup>e\<close> for the least \<open>e\<close> from
  \<open>-1074\<close> (the subnormal spacing) on with \<open>|x| < 2\<^sup>e\<^sup>+\<^sup>5\<^sup>3\<close>; beyond \<open>e = 971\<close> the value is
  out of range.
\<close>

definition ulp_exponent :: "real \<Rightarrow> int option" where
  "ulp_exponent x = List.find (\<lambda>e. \<bar>x\<bar> < 2 powi (e + 53)) [- 1074 .. 971]"

text \<open>Rounding to the nearest integer, a tie going to the even one.\<close>

definition round_half_even :: "real \<Rightarrow> int" where
  "round_half_even r =
     (let f = \<lfloor>r\<rfloor>; d = r - of_int f
      in if d < 1 / 2 then f
         else if 1 / 2 < d then f + 1
         else if even f then f else f + 1)"

definition overflow :: "real \<Rightarrow> pyfloat" where
  "overflow x = (if 0 < x then PInf else NInf)"

text \<open>
  The float nearest to an exact result \<open>x\<close>, ties to even; a result that rounds to
  \<open>2\<^sup>1\<^sup>0\<^sup>2\<^sup>4\<close> or beyond is an infinity.
\<close>

definition round_double :: "real \<Rightarrow> pyfloat" where
  "round_double x =
     (case ulp_exponent x of
        None \<Rightarrow> overflow x
      | Some e \<Rightarrow>
          (let n = round_half_even (x / 2 powi e)
           in if 2 ^ 53 \<le> \<bar>n\<bar> \<and> e = 971 then overflow x
              else Fin (of_int n * 2 powi e)))"

text \<open>The float operations \<open>a - b\<close>, \<open>a * b\<close> and \<open>a / b\<close> (with \<open>b\<close> not zero).\<close>

fun float_sub :: "pyfloat \<Rightarrow> pyfloat \<Rightarrow> pyfloat" where
  "float_sub (Fin a) (Fin b) = round_double (a - b)"
| "float_sub NaN b = NaN"
| "float_sub a NaN = NaN"
| "float_sub PInf PInf = NaN"
| "float_sub NInf NInf = NaN"
| "float_sub PInf b = PInf"
| "float_sub NInf b = NInf"
| "float_sub a PInf = NInf"
| "float_sub a NInf = PInf"

fun float_mul :: "pyfloat \<Rightarrow> pyfloat \<Rightarrow> pyfloat" where
  "float_mul (Fin a) (Fin b) = round_double (a * b)"
| "float_mul NaN b = NaN"
| "float_mul a NaN = NaN"
| "float_mul PInf (Fin b) = (if b = 0 then NaN else if 0 < b then PInf else NInf)"
| "float_mul NInf (Fin b) = (if b = 0 then NaN else if 0 < b then NInf else PInf)"
| "float_mul (Fin a) PInf = (if a = 0 then NaN else if 0 < a then PInf else NInf)"
| "float_mul (Fin a) NInf = (if a = 0 then NaN else if 0 < a then NInf else PInf)"
| "float_mul PInf PInf = PInf"
| "float_mul NInf NInf = PInf"
| "float_mul PInf NInf = NInf"
| "float_mul NInf PInf = NInf"

fun float_div :: "pyfloat \<Rightarrow> pyfloat \<Rightarrow> pyfloat" where
  "float_div (Fin a) (Fin b) = round_double (a / b)"
| "float_div NaN b = NaN"
| "float_div a NaN = NaN"
| "float_div (Fin a) b = Fin 0"
| "float_div PInf (Fin b) = (if 0 < b then PInf else NInf)"
| "float_div NInf (Fin b) = (if 0 < b then NInf else PInf)"
| "float_div a b = NaN"

text \<open>
  The conversion of an operand to \<open>float\<close>: an \<open>int\<close> is rounded, and one beyond the range
  raises \<open>OverflowError\<close>.
\<close>

fun to_float :: "pynum \<Rightarrow> py_error + pyfloat" where
  "to_float (PyFloat f) = Inr f"
| "to_float (PyInt i) =
     (case round_double (of_int i) of Fin r \<Rightarrow> Inr (Fin r) | _ \<Rightarrow> Inl OverflowError)"

text \<open>
  \<open>a - b\<close> and \<open>a * b\<close>: exact on two \<open>int\<close>s, otherwise the float operation on the
  converted operands.
\<close>

fun py_sub :: "pynum \<Rightarrow> pynum \<Rightarrow> py_error + pynum" where
  "py_sub (PyInt a) (PyInt b) = Inr (PyInt (a - b))"
| "py_sub a b =
     (case to_float a of
        Inl e \<Rightarrow> Inl e
      | Inr fa \<Rightarrow>
          (case to_float b of
             Inl e \<Rightarrow> Inl e
           | Inr fb \<Rightarrow> Inr (PyFloat (float_sub fa fb))))"

fun py_mul :: "pynum \<Rightarrow> pynum \<Rightarrow> py_error + pynum" where
  "py_mul (PyInt a) (PyInt b) = Inr (PyInt (a * b))"
| "py_mul a b =
     (case to_float a of
        Inl e \<Rightarrow> Inl e
      | Inr fa \<Rightarrow>
          (case to_float b of
             Inl e \<Rightarrow> Inl e
           | Inr fb \<Rightarrow> Inr (PyFloat (float_mul fa fb))))"

text \<open>
  True division \<open>a / b\<close>. Two \<open>int\<close>s give the float nearest to the exact quotient, or
  \<open>OverflowError\<close> when that is out of range; otherwise the operands are converted and
  divided as floats. A zero divisor raises \<open>ZeroDivisionError\<close>.
\<close>

fun py_truediv :: "pynum \<Rightarrow> pynum \<Rightarrow> py_error + pynum" where
  "py_truediv (PyInt a) (PyInt b) =
     (if b = 0 then Inl ZeroDivisionError
      else (case round_double (of_int a / of_int b) of
              Fin r \<Rightarrow> Inr (PyFloat (Fin r))
            | _ \<Rightarrow> Inl OverflowError))"
| "py_truediv a b =
     (case to_float a of
        Inl e \<Rightarrow> Inl e
      | Inr fa \<Rightarrow>
          (case to_float b of
             Inl e \<Rightarrow> Inl e
           | Inr fb \<Rightarrow>
               if fb = Fin 0 then Inl ZeroDivisionError
               else Inr (PyFloat (float_div fa fb))))"

text \<open>
  Comparison of numbers is exact, also between an \<open>int\<close> and a \<open>float\<close>. A number has a
  place in the order unless it is a NaN, which is neither equal to, below nor above
  anything.
\<close>

fun num_key :: "pynum \<Rightarrow> (int \<times> real) option" where
  "num_key (PyInt i) = Some (0, of_int i)"
| "num_key (PyFloat (Fin r)) = Some (0, r)"
| "num_key (PyFloat PInf) = Some (1, 0)"
| "num_key (PyFloat NInf) = Some (- 1, 0)"
| "num_key (PyFloat NaN) = None"

text \<open>\<open>a < b\<close>, \<open>a > b\<close> and \<open>a == b\<close>\<close>

definition py_lt :: "pynum \<Rightarrow> pynum \<Rightarrow> bool" where
  "py_lt a b =
     (case num_key a of
        None \<Rightarrow> False
      | Some (ka, ra) \<Rightarrow>
          (case num_key b of
             None \<Rightarrow> False
           | Some (kb, rb) \<Rightarrow> ka < kb \<or> (ka = kb \<and> ra < rb)))"

definition py_gt :: "pynum \<Rightarrow> pynum \<Rightarrow> bool" where
  "py_gt a b = py_lt b a"

definition py_eq :: "pynum \<Rightarrow> pynum \<Rightarrow> bool" where
  "py_eq a b = (case num_key a of None \<Rightarrow> False | Some k \<Rightarrow> num_key b = Some k)"

text \<open>
  \<open>min(xs)\<close> and \<open>max(xs)\<close>: the first item is kept until a later one is strictly below
  (above) it; an empty list raises \<open>ValueError\<close>.
\<close>

fun py_min :: "pynum list \<Rightarrow> py_error + pynum" where
  "py_min [] = Inl ValueError"
| "py_min (x # xs) =
     Inr (fold (\<lambda>item minitem. if py_lt item minitem then item else minitem) xs x)"

fun py_max :: "pynum list \<Rightarrow> py_error + pynum" where
  "py_max [] = Inl ValueError"
| "py_max (x # xs) =
     Inr (fold (\<lambda>item maxitem. if py_gt item maxitem then item else maxitem) xs x)"

text \<open>
  \<open>int(el)\<close>: a finite float is truncated towards zero, an infinity raises
  \<open>OverflowError\<close> and a NaN raises \<open>ValueError\<close>.
\<close>

fun py_int :: "pynum \<Rightarrow> py_error + int" where
  "py_int (PyInt i) = Inr i"
| "py_int (PyFloat (Fin r)) = Inr (if r < 0 then \<lceil>r\<rceil> else \<lfloor>r\<rfloor>)"
| "py_int (PyFloat NaN) = Inl ValueError"
| "py_int (PyFloat f) = Inl OverflowError"

subsection \<open>The bar registry and \<open>update_bars\<close>\<close>

text \<open>
  The dictionary \<open>bars\<close> maps a bar name to its coordinate. A Python dictionary keeps
  its keys in insertion order, so it is an association list: \<open>el in bars\<close> and
  \<open>bars[el]\<close> are \<^const>\<open>map_of\<close>, \<open>len(bars)\<close> is \<^const>\<open>length\<close>, and
  \<open>bars.update({el: i})\<close> is \<^const>\<open>AList.update\<close>, which overwrites the value of a
  key that is present and appends a key that is not.
\<close>

type_synonym registry = "(string \<times> int) list"

text \<open>
  The \<open>for el in xlabels\<close> loop of \<open>update_bars\<close>, with the list \<open>xn\<close> and the
  dictionary \<open>bars\<close> it mutates.
\<close>

fun label_loop :: "string list \<Rightarrow> int list \<Rightarrow> registry \<Rightarrow> int list \<times> registry" where
  "label_loop [] xn bars = (xn, bars)"
| "label_loop (el # els) xn bars =
     (case map_of bars el of
        Some p \<Rightarrow> label_loop els (xn @ [p]) bars
      | None \<Rightarrow>
          (let i = int (length bars) + 1
           in label_loop els (xn @ [i]) (AList.update el i bars)))"

text \<open>
  \<open>update_bars(x, bars, offset)\<close>. The helper \<open>get_labels\<close> of
  \<open>plotext._utility.plot\<close> is a parameter. The assignment \<open>x = xn\<close> sits inside the
  loop body, so \<open>x\<close> is replaced only when the loop runs at least once.
\<close>

definition update_bars ::
  "(pynum \<Rightarrow> string) \<Rightarrow> (xval list \<Rightarrow> string \<Rightarrow> string list) \<Rightarrow>
   xval list \<Rightarrow> registry \<Rightarrow> real \<Rightarrow> xval list \<times> string list \<times> bool \<times> registry" where
  "update_bars num_str get_labels x bars offset =
     (let labelled = list_ex is_str x
      in if \<not> labelled then (x, get_labels x ''linear'', labelled, bars)
         else
           (let xlabels = map (py_str num_str) x;
                (xn, bars') = label_loop xlabels [] bars;
                x' = (if xlabels = [] then x else map (\<lambda>i. Num (PyInt i)) xn)
            in (x', xlabels, labelled, bars')))"

text \<open>
  The registry invariant of the specification: the names are pairwise different and, read
  in insertion order, their positions are \<open>1, 2, ..., len(bars)\<close>.
\<close>

definition registry_ok :: "registry \<Rightarrow> bool" where
  "registry_ok bars \<longleftrightarrow>
     distinct (map fst bars) \<and> map snd bars = [1 .. int (length bars)]"

text \<open>The registry as the loop finds it when it reaches the label at index \<open>k\<close>.\<close>

definition registry_before :: "string list \<Rightarrow> registry \<Rightarrow> nat \<Rightarrow> registry" where
  "registry_before xlabels bars k = snd (label_loop (take k xlabels) [] bars)"

subsection \<open>Axis limits\<close>

text \<open>\<open>min(y, default = None)\<close> and \<open>max(y, default = None)\<close>\<close>

definition min_default :: "pynum list \<Rightarrow> pynum option" where
  "min_default y = (case py_min y of Inl e \<Rightarrow> None | Inr v \<Rightarrow> Some v)"

definition max_default :: "pynum list \<Rightarrow> pynum option" where
  "max_default y = (case py_max y of Inl e \<Rightarrow> None | Inr v \<Rightarrow> Some v)"

text \<open>\<open>update_bar_xlim(y)\<close>: a missing value is \<open>None\<close>; the two-element list is a pair.\<close>

definition update_bar_xlim :: "pynum option list \<Rightarrow> pynum option \<times> pynum option" where
  "update_bar_xlim y =
     (let y' = concat (map (\<lambda>el. case el of None \<Rightarrow> [] | Some v \<Rightarrow> [v]) y)
      in (min_default y', max_default y'))"

text \<open>
  \<open>update_bar_ylim(y)\<close>: \<open>delta = (bar_lim[1] - bar_lim[0]) / 20\<close>, then the lower limit
  becomes \<open>bar_lim[0] - delta\<close> if that is above 0.
\<close>

definition update_bar_ylim ::
  "pynum option list \<Rightarrow> py_error + (pynum option \<times> pynum option)" where
  "update_bar_ylim y =
     (case update_bar_xlim y of
        (Some lo, Some hi) \<Rightarrow>
          (case py_sub hi lo of
             Inl e \<Rightarrow> Inl e
           | Inr d \<Rightarrow>
               (case py_truediv d (PyInt 20) of
                  Inl e \<Rightarrow> Inl e
                | Inr delta \<Rightarrow>
                    (case py_sub lo delta of
                       Inl e \<Rightarrow> Inl e
                     | Inr shrunk \<Rightarrow>
                         Inr (Some (if py_gt shrunk (PyInt 0) then shrunk else lo), Some hi))))
      | bar_lim \<Rightarrow> Inr bar_lim)"

subsection \<open>Bar geometry\<close>

text \<open>\<open>xs[i]\<close> for an index produced by \<open>range\<close>, which is never negative.\<close>

definition getitem :: "'a list \<Rightarrow> nat \<Rightarrow> py_error + 'a" where
  "getitem xs i = (if i < length xs then Inr (xs ! i) else Inl IndexError)"

text \<open>
  The \<open>for i in range(bins)\<close> loop of \<open>bars\<close>, with the two lists it appends to.
\<close>

fun bars_loop ::
  "nat list \<Rightarrow> real list \<Rightarrow> real list \<Rightarrow> real \<Rightarrow> real \<Rightarrow>
   real list list \<Rightarrow> real list list \<Rightarrow> py_error + (real list list \<times> real list list)" where
  "bars_loop [] x y bin_size_half minimum xbar ybar = Inr (xbar, ybar)"
| "bars_loop (i # is) x y bin_size_half minimum xbar ybar =
     (case getitem x i of
        Inl e \<Rightarrow> Inl e
      | Inr xi \<Rightarrow>
          (let xbar' = xbar @ [[xi - bin_size_half, xi - bin_size_half,
                                xi + bin_size_half, xi + bin_size_half,
                                xi - bin_size_half]]
           in case getitem y i of
                Inl e \<Rightarrow> Inl e
              | Inr yi \<Rightarrow>
                  bars_loop is x y bin_size_half minimum xbar'
                    (ybar @ [[minimum, yi, yi, minimum, minimum]])))"

text \<open>\<open>bars(x, y, width, minimum)\<close>\<close>

definition bars ::
  "real list \<Rightarrow> real list \<Rightarrow> real \<Rightarrow> real \<Rightarrow>
   py_error + (real list list \<times> real list list)" where
  "bars x y width minimum =
     (if x = [] then Inr ([], [])
      else
        (let bins = int (length x)
         in case py_div (Max (set x) - Min (set x)) (real_of_int (bins - 1)) of
              Inl e \<Rightarrow> Inl e
            | Inr q \<Rightarrow>
                (let bin_size_half = q * width / 2
                 in bars_loop [0 ..< nat bins] x y bin_size_half minimum [] [])))"

subsection \<open>Histogram\<close>

text \<open>
  The element expression of the first comprehension of \<open>hist_data\<close>:
  \<open>(el - m) / (M - m) * bins if el != M else bins - 1\<close>. The condition is evaluated
  first, and the arithmetic only when it holds, from left to right.
\<close>

definition normalize :: "pynum \<Rightarrow> pynum \<Rightarrow> int \<Rightarrow> pynum \<Rightarrow> py_error + pynum" where
  "normalize m M bins el =
     (if \<not> py_eq el M then
        (case py_sub el m of
           Inl e \<Rightarrow> Inl e
         | Inr a \<Rightarrow>
             (case py_sub M m of
                Inl e \<Rightarrow> Inl e
              | Inr b \<Rightarrow>
                  (case py_truediv a b of
                     Inl e \<Rightarrow> Inl e
                   | Inr q \<Rightarrow> py_mul q (PyInt bins))))
      else Inr (PyInt (bins - 1)))"

text \<open>The counting loop \<open>for el in data: histy[el] += 1\<close>.\<close>

fun count_loop :: "int list \<Rightarrow> int list \<Rightarrow> py_error + int list" where
  "count_loop [] histy = Inr histy"
| "count_loop (el # els) histy =
     (case list_index histy el of
        Inl e \<Rightarrow> Inl e
      | Inr j \<Rightarrow> count_loop els (histy[j := histy ! j + 1]))"

text \<open>
  \<open>hist_data(data, bins)\<close>; the caller's default for \<open>bins\<close> is 10. The helper
  \<open>linspace\<close> of \<open>plotext._utility.data\<close> is not among the sources and is a parameter.
\<close>

definition hist_data ::
  "(pynum \<Rightarrow> pynum \<Rightarrow> int \<Rightarrow> 'a list) \<Rightarrow> pynum list \<Rightarrow> int \<Rightarrow>
   py_error + ('a list \<times> int list)" where
  "hist_data linspace data bins =
     (if data = [] then Inr ([], [])
      else
        (case py_min data of
           Inl e \<Rightarrow> Inl e
         | Inr m \<Rightarrow>
             (case py_max data of
                Inl e \<Rightarrow> Inl e
              | Inr M \<Rightarrow>
                  (case comprehension (normalize m M bins) data of
                     Inl e \<Rightarrow> Inl e
                   | Inr data1 \<Rightarrow>
                       (case comprehension py_int data1 of
                          Inl e \<Rightarrow> Inl e
                        | Inr data2 \<Rightarrow>
                            (let histx = linspace m M bins;
                                 histy = replicate (nat bins) 0
                             in case count_loop data2 histy of
                                  Inl e \<Rightarrow> Inl e
                                | Inr histy' \<Rightarrow> Inr (histx, histy')))))))"

section \<open>The label resolver\<close>

subsection \<open>The loop over the labels\<close>

lemma update_fresh: "map_of al k = None \<Longrightarrow> AList.update k v al = al @ [(k, v)]"
  by (induction al) (auto split: if_splits)

lemma label_loop_append:
  "label_loop (ls1 @ ls2) xn reg =
     (case label_loop ls1 xn reg of (xn1, r1) \<Rightarrow> label_loop ls2 xn1 r1)"
  by (induction ls1 arbitrary: xn reg) (auto simp: Let_def split: option.splits)

lemma label_loop_acc:
  "label_loop ls xn reg = (xn @ fst (label_loop ls [] reg), snd (label_loop ls [] reg))"
proof (induction ls arbitrary: xn reg)
  case Nil
  show ?case by simp
next
  case (Cons el els)
  show ?case
  proof (cases "map_of reg el")
    case None
    let ?i = "int (length reg) + 1"
    let ?r = "AList.update el ?i reg"
    have a: "label_loop els (xn @ [?i]) ?r =
        ((xn @ [?i]) @ fst (label_loop els [] ?r), snd (label_loop els [] ?r))"
      by (rule Cons.IH)
    have b: "label_loop els [?i] ?r =
        ([?i] @ fst (label_loop els [] ?r), snd (label_loop els [] ?r))"
      by (rule Cons.IH)
    from None a b show ?thesis by (simp add: Let_def)
  next
    case (Some p)
    have a: "label_loop els (xn @ [p]) reg =
        ((xn @ [p]) @ fst (label_loop els [] reg), snd (label_loop els [] reg))"
      by (rule Cons.IH)
    have b: "label_loop els [p] reg =
        ([p] @ fst (label_loop els [] reg), snd (label_loop els [] reg))"
      by (rule Cons.IH)
    from Some a b show ?thesis by simp
  qed
qed

lemma label_loop_length: "length (fst (label_loop ls xn reg)) = length xn + length ls"
  by (induction ls arbitrary: xn reg) (auto simp: Let_def split: option.splits)

lemma label_loop_mono:
  "map_of reg l = Some p \<Longrightarrow> map_of (snd (label_loop ls xn reg)) l = Some p"
proof (induction ls arbitrary: xn reg)
  case Nil
  then show ?case by simp
next
  case (Cons el els)
  show ?case
  proof (cases "map_of reg el")
    case None
    with Cons.prems have "l \<noteq> el" by auto
    with Cons.prems have "map_of (AList.update el (int (length reg) + 1) reg) l = Some p"
      by (simp add: update_conv')
    from Cons.IH [OF this] None show ?thesis by (simp add: Let_def)
  next
    case (Some q)
    with Cons.IH [OF Cons.prems] show ?thesis by simp
  qed
qed

lemma registry_ok_extend:
  assumes "registry_ok reg" and "map_of reg el = None"
  shows "registry_ok (AList.update el (int (length reg) + 1) reg)"
proof -
  from assms(2) have notin: "el \<notin> fst ` set reg"
    by (simp add: map_of_eq_None_iff)
  have up: "[1 .. 1 + int (length reg)] = [1 .. int (length reg)] @ [1 + int (length reg)]"
    by (simp add: upto_rec2)
  from assms(1) notin up show ?thesis
    by (simp add: registry_ok_def update_fresh [OF assms(2)])
qed

lemma label_loop_ok:
  "registry_ok reg \<Longrightarrow> registry_ok (snd (label_loop ls xn reg))"
proof (induction ls arbitrary: xn reg)
  case Nil
  then show ?case by simp
next
  case (Cons el els)
  show ?case
  proof (cases "map_of reg el")
    case None
    from Cons.IH [OF registry_ok_extend [OF Cons.prems None]] None
    show ?thesis by (simp add: Let_def)
  next
    case (Some q)
    with Cons.IH [OF Cons.prems] show ?thesis by simp
  qed
qed


lemma label_loop_nth:
  assumes "k < length ls"
  shows "fst (label_loop ls [] reg) ! k =
     (case map_of (snd (label_loop (take k ls) [] reg)) (ls ! k) of
        Some p \<Rightarrow> p
      | None \<Rightarrow> int (length (snd (label_loop (take k ls) [] reg))) + 1)"
proof -
  obtain xk rk where pre: "label_loop (take k ls) [] reg = (xk, rk)"
    by (cases "label_loop (take k ls) [] reg")
  have lk: "length xk = k"
    using label_loop_length [of "take k ls" "[]" reg] assms by (simp add: pre)
  have split: "ls = take k ls @ (ls ! k # drop (Suc k) ls)"
    using assms by (simp add: id_take_nth_drop [symmetric])
  have "label_loop ls [] reg = label_loop (ls ! k # drop (Suc k) ls) xk rk"
    using label_loop_append [of "take k ls" "ls ! k # drop (Suc k) ls" "[]" reg] split pre
    by simp
  also have "fst \<dots> ! k = (case map_of rk (ls ! k) of Some p \<Rightarrow> p | None \<Rightarrow> int (length rk) + 1)"
  proof (cases "map_of rk (ls ! k)")
    case None
    let ?i = "int (length rk) + 1"
    have "fst (label_loop (drop (Suc k) ls) (xk @ [?i]) (AList.update (ls ! k) ?i rk)) ! k = ?i"
      by (subst label_loop_acc) (simp add: lk nth_append)
    with None show ?thesis by (simp add: Let_def)
  next
    case (Some p)
    have "fst (label_loop (drop (Suc k) ls) (xk @ [p]) rk) ! k = p"
      by (subst label_loop_acc) (simp add: lk nth_append)
    with Some show ?thesis by simp
  qed
  finally show ?thesis by (simp add: pre split: option.splits)
qed

lemma label_loop_final:
  assumes "k \<le> length ls" and "map_of (snd (label_loop (take k ls) [] reg)) l = Some p"
  shows "map_of (snd (label_loop ls [] reg)) l = Some p"
proof -
  obtain xk rk where pre: "label_loop (take k ls) [] reg = (xk, rk)"
    by (cases "label_loop (take k ls) [] reg")
  have "label_loop ls [] reg = label_loop (drop k ls) xk rk"
    using label_loop_append [of "take k ls" "drop k ls" "[]" reg] pre by simp
  with label_loop_mono [of rk l p "drop k ls" xk] assms(2) pre show ?thesis by simp
qed

lemma label_loop_stored:
  assumes "k < length ls"
  shows "map_of (snd (label_loop ls [] reg)) (ls ! k) = Some (fst (label_loop ls [] reg) ! k)"
proof -
  obtain xk rk where pre: "label_loop (take k ls) [] reg = (xk, rk)"
    by (cases "label_loop (take k ls) [] reg")
  have tk: "take (Suc k) ls = take k ls @ [ls ! k]"
    using assms by (simp add: take_Suc_conv_app_nth)
  have "map_of (snd (label_loop (take (Suc k) ls) [] reg)) (ls ! k)
      = Some (fst (label_loop ls [] reg) ! k)"
    unfolding tk label_loop_append label_loop_nth [OF assms] pre
    by (cases "map_of rk (ls ! k)") (simp_all add: Let_def update_conv')
  from label_loop_final [OF _ this] assms show ?thesis by simp
qed


text \<open>
  Claim C1. On a labelled batch, the coordinate of the label at index \<open>k\<close> is the position
  the registry already stores for it when the loop reaches \<open>k\<close>, and otherwise the size of
  the registry at that moment plus 1. Every coordinate is the position the returned registry
  stores for its label, a stored position never changes, and a registry whose positions are
  \<open>1, ..., size\<close> in insertion order, as the empty one is, keeps that form.
\<close>

theorem update_bars_registry:
  assumes "list_ex is_str x"
    and "update_bars num_str get_labels x reg offset = (xs, xlabels, labelled, reg')"
  shows "labelled \<and> xlabels = map (py_str num_str) x \<and> length xs = length x \<and>
     (\<forall>k<length x. \<forall>p. map_of (registry_before xlabels reg k) (xlabels ! k) = Some p \<longrightarrow>
        xs ! k = Num (PyInt p)) \<and>
     (\<forall>k<length x. map_of (registry_before xlabels reg k) (xlabels ! k) = None \<longrightarrow>
        xs ! k = Num (PyInt (int (length (registry_before xlabels reg k)) + 1))) \<and>
     (\<forall>k<length x. \<exists>p. xs ! k = Num (PyInt p) \<and> map_of reg' (xlabels ! k) = Some p) \<and>
     (\<forall>k\<le>length x. \<forall>l p. map_of (registry_before xlabels reg k) l = Some p \<longrightarrow>
        map_of reg' l = Some p) \<and>
     registry_before xlabels reg 0 = reg \<and>
     registry_before xlabels reg (length x) = reg' \<and>
     (registry_ok reg \<longrightarrow> registry_ok reg') \<and>
     registry_ok []"
proof -
  let ?ls = "map (py_str num_str) x"
  from assms(1) have ne: "x \<noteq> []" by auto
  from assms have lab: "labelled" and xl: "xlabels = ?ls"
    and xs: "xs = map (\<lambda>i. Num (PyInt i)) (fst (label_loop ?ls [] reg))"
    and r': "reg' = snd (label_loop ?ls [] reg)"
    using ne by (auto simp: update_bars_def Let_def split: prod.splits)
  have len: "length xs = length x"
    by (simp add: xs label_loop_length)
  have c1: "\<forall>k<length x. \<forall>p. map_of (registry_before xlabels reg k) (xlabels ! k) = Some p \<longrightarrow>
        xs ! k = Num (PyInt p)"
    using label_loop_nth [of _ ?ls reg]
    by (simp add: xs xl registry_before_def label_loop_length)
  have c2: "\<forall>k<length x. map_of (registry_before xlabels reg k) (xlabels ! k) = None \<longrightarrow>
        xs ! k = Num (PyInt (int (length (registry_before xlabels reg k)) + 1))"
    using label_loop_nth [of _ ?ls reg]
    by (simp add: xs xl registry_before_def label_loop_length)
  have c3: "\<forall>k<length x. \<exists>p. xs ! k = Num (PyInt p) \<and> map_of reg' (xlabels ! k) = Some p"
    using label_loop_stored [of _ ?ls reg]
    by (simp add: xs xl r' label_loop_length)
  have c4: "\<forall>k\<le>length x. \<forall>l p. map_of (registry_before xlabels reg k) l = Some p \<longrightarrow>
        map_of reg' l = Some p"
    using label_loop_final [of _ ?ls reg]
    by (simp add: xl r' registry_before_def)
  have c5: "registry_before xlabels reg 0 = reg"
    by (simp add: registry_before_def)
  have c6: "registry_before xlabels reg (length x) = reg'"
    by (simp add: registry_before_def xl r')
  have c7: "registry_ok reg \<longrightarrow> registry_ok reg'"
    by (simp add: r' label_loop_ok)
  have c8: "registry_ok []"
    by (simp add: registry_ok_def)
  from lab xl len c1 c2 c3 c4 c5 c6 c7 c8 show ?thesis by blast
qed

text \<open>The scenario \<open>resolveLabels(["a","b","a","c"], {})\<close> of the specification.\<close>

theorem update_bars_registry_witness:
  "list_ex is_str [Str ''a'', Str ''b'', Str ''a'', Str ''c''] \<and>
   update_bars (\<lambda>n. ''0'') (\<lambda>x s. []) [Str ''a'', Str ''b'', Str ''a'', Str ''c''] [] 0 =
     ([Num (PyInt 1), Num (PyInt 2), Num (PyInt 1), Num (PyInt 3)],
      [''a'', ''b'', ''a'', ''c''], True, [(''a'', 1), (''b'', 2), (''c'', 3)]) \<and>
   registry_ok [(''a'', 1), (''b'', 2), (''c'', 3)] \<and>
   registry_before [''a'', ''b'', ''a'', ''c''] [] 4 = [(''a'', 1), (''b'', 2), (''c'', 3)]"
proof -
  have h1: "list_ex is_str [Str ''a'', Str ''b'', Str ''a'', Str ''c'']"
    by simp
  have h2: "update_bars (\<lambda>n. ''0'') (\<lambda>x s. []) [Str ''a'', Str ''b'', Str ''a'', Str ''c''] [] 0 =
     ([Num (PyInt 1), Num (PyInt 2), Num (PyInt 1), Num (PyInt 3)],
      [''a'', ''b'', ''a'', ''c''], True, [(''a'', 1), (''b'', 2), (''c'', 3)])"
    by (simp add: update_bars_def Let_def)
  note facts = update_bars_registry [OF h1 h2]
  from facts have ok: "registry_ok [(''a'', 1), (''b'', 2), (''c'', 3)]"
    by blast
  from facts have "registry_before [''a'', ''b'', ''a'', ''c''] []
      (length [Str ''a'', Str ''b'', Str ''a'', Str ''c'']) = [(''a'', 1), (''b'', 2), (''c'', 3)]"
    by blast
  then have "registry_before [''a'', ''b'', ''a'', ''c''] [] 4 = [(''a'', 1), (''b'', 2), (''c'', 3)]"
    by (simp add: numeral_eq_Suc)
  with h1 h2 ok show ?thesis by blast
qed

subsection \<open>Numeric batches\<close>


text \<open>
  Claim C2. When no element of \<open>x\<close> is a string, \<open>update_bars\<close> returns \<open>x\<close> itself
  as the coordinates, reports the series as not labelled and returns the registry as it was.
\<close>

theorem update_bars_numeric:
  assumes "\<forall>el \<in> set x. \<not> is_str el"
  shows "update_bars num_str get_labels x reg offset =
           (x, get_labels x ''linear'', False, reg)"
  using assms by (simp add: update_bars_def list_ex_iff)

text \<open>A numeric batch against a registry of two names.\<close>

theorem update_bars_numeric_witness:
  "\<not> is_str (Num (PyInt 3)) \<and> \<not> is_str (Num (PyFloat (Fin (5 / 2)))) \<and>
   update_bars (\<lambda>n. ''0'') (\<lambda>x s. map (\<lambda>el. ''0'') x)
       [Num (PyInt 3), Num (PyFloat (Fin (5 / 2)))] [(''a'', 1), (''b'', 2)] 0 =
     ([Num (PyInt 3), Num (PyFloat (Fin (5 / 2)))], [''0'', ''0''], False, [(''a'', 1), (''b'', 2)])"
proof -
  have h: "\<forall>el \<in> set [Num (PyInt 3), Num (PyFloat (Fin (5 / 2)))]. \<not> is_str el"
    by simp
  from update_bars_numeric [OF h, of "\<lambda>n. ''0''" "\<lambda>x s. map (\<lambda>el. ''0'') x" "[(''a'', 1), (''b'', 2)]" 0] h
  show ?thesis by simp
qed

subsection \<open>A single bar\<close>

text \<open>
  Claim C9. With exactly one bar the divisor \<open>bins - 1\<close> of the half-width is zero, so
  \<open>bars\<close> fails with \<open>ZeroDivisionError\<close> and returns no geometry.
\<close>

theorem bars_single_bar:
  assumes "length x = 1"
  shows "bars x y width minimum = Inl ZeroDivisionError"
  using assms by (auto simp: bars_def py_div_def)

text \<open>One bar at 3 of height 7.\<close>

theorem bars_single_bar_witness:
  "length [3::real] = 1 \<and> bars [3] [7] (4 / 5) 0 = Inl ZeroDivisionError"
proof -
  have h: "length [3::real] = 1" by simp
  from bars_single_bar [OF h, of "[7]" "4 / 5" 0] h show ?thesis by simp
qed

section \<open>Bar geometry\<close>

subsection \<open>The loop over the bars\<close>

lemma bars_loop_complete:
  assumes "\<forall>i \<in> set is. i < length x \<and> i < length y"
  shows "bars_loop is x y h b xbar ybar =
     Inr (xbar @ map (\<lambda>i. [x ! i - h, x ! i - h, x ! i + h, x ! i + h, x ! i - h]) is,
          ybar @ map (\<lambda>i. [b, y ! i, y ! i, b, b]) is)"
  using assms by (induction "is" arbitrary: xbar ybar) (simp_all add: getitem_def)

lemma bars_loop_short:
  assumes "\<forall>i \<in> set is. i < length x" and "\<exists>i \<in> set is. \<not> i < length y"
  shows "bars_loop is x y h b xbar ybar = Inl IndexError"
  using assms by (induction "is" arbitrary: xbar ybar) (auto simp: getitem_def)

lemma bars_geometry:
  assumes "2 \<le> length x" and "length x \<le> length y"
  shows "bars x y w b =
     Inr (map (\<lambda>i. [x ! i - (Max (set x) - Min (set x)) / (real (length x) - 1) * w / 2,
                     x ! i - (Max (set x) - Min (set x)) / (real (length x) - 1) * w / 2,
                     x ! i + (Max (set x) - Min (set x)) / (real (length x) - 1) * w / 2,
                     x ! i + (Max (set x) - Min (set x)) / (real (length x) - 1) * w / 2,
                     x ! i - (Max (set x) - Min (set x)) / (real (length x) - 1) * w / 2])
            [0 ..< length x],
          map (\<lambda>i. [b, y ! i, y ! i, b, b]) [0 ..< length x])"
proof -
  from assms(1) have ne: "x \<noteq> []" by auto
  from assms(1) have d: "real_of_int (int (length x) - 1) \<noteq> 0" by simp
  have r: "real_of_int (int (length x) - 1) = real (length x) - 1" by simp
  have all: "\<forall>i \<in> set [0 ..< length x]. i < length x \<and> i < length y"
    using assms(2) by simp
  show ?thesis
    using ne d by (simp add: bars_def py_div_def Let_def bars_loop_complete [OF all] r)
qed

lemma bars_too_few_heights:
  assumes "2 \<le> length x" and "length y < length x"
  shows "bars x y w b = Inl IndexError"
proof -
  from assms(1) have ne: "x \<noteq> []" by auto
  from assms(1) have d: "real_of_int (int (length x) - 1) \<noteq> 0" by simp
  have a: "\<forall>i \<in> set [0 ..< length x]. i < length x" by simp
  have b: "\<exists>i \<in> set [0 ..< length x]. \<not> i < length y"
    using assms(2) by (intro bexI [of _ "length y"]) simp_all
  show ?thesis
    using ne d by (simp add: bars_def py_div_def Let_def bars_loop_short [OF a b])
qed

lemma bars_one: "length x = 1 \<Longrightarrow> bars x y w b = Inl ZeroDivisionError"
  by (auto simp: bars_def py_div_def)

lemma bars_returns_cases:
  assumes "bars x y w b = Inr (xbar, ybar)"
  shows "(x = [] \<and> xbar = [] \<and> ybar = []) \<or> (2 \<le> length x \<and> length x \<le> length y)"
proof (cases "x = []")
  case True
  with assms show ?thesis by (simp add: bars_def)
next
  case False
  have "length x \<noteq> 1" using assms bars_one [of x y w b] by auto
  moreover from False have "length x \<noteq> 0" by simp
  ultimately have two: "2 \<le> length x" by arith
  have "\<not> length y < length x" using assms bars_too_few_heights [OF two, of y w b] by auto
  with two show ?thesis by simp
qed


text \<open>
  Claim C7. Whenever \<open>bars\<close> returns, it returns one polygon per bar, and every polygon has
  exactly five points, in the order (left, base), (left, top), (right, top), (right, base),
  (left, base), so its first point is its last.
\<close>

theorem bars_closed_polygons:
  assumes "bars x y w b = Inr (xbar, ybar)"
  shows "length xbar = length x \<and> length ybar = length x \<and>
     (\<exists>h. \<forall>i<length x.
        length (xbar ! i) = 5 \<and> length (ybar ! i) = 5 \<and>
        zip (xbar ! i) (ybar ! i) =
          [(x ! i - h, b), (x ! i - h, y ! i), (x ! i + h, y ! i), (x ! i + h, b), (x ! i - h, b)] \<and>
        hd (zip (xbar ! i) (ybar ! i)) = last (zip (xbar ! i) (ybar ! i)))"
proof -
  from bars_returns_cases [OF assms]
  consider "x = []" "xbar = []" "ybar = []" | "2 \<le> length x" "length x \<le> length y"
    by blast
  then show ?thesis
  proof cases
    case 1
    then show ?thesis by simp
  next
    case 2
    from bars_geometry [OF 2, of w b] assms
    show ?thesis
      by (intro conjI exI [of _ "(Max (set x) - Min (set x)) / (real (length x) - 1) * w / 2"])
         auto
  qed
qed



text \<open>The three bars of the specification's scenario.\<close>

theorem bars_closed_polygons_witness:
  "bars [1, 2, 3] [5, 7, 2] (8 / 10) 0 =
     Inr ([[6 / 10, 6 / 10, 14 / 10, 14 / 10, 6 / 10],
           [16 / 10, 16 / 10, 24 / 10, 24 / 10, 16 / 10],
           [26 / 10, 26 / 10, 34 / 10, 34 / 10, 26 / 10]],
          [[0, 5, 5, 0, 0], [0, 7, 7, 0, 0], [0, 2, 2, 0, 0]]) \<and>
   length [[6 / 10, 6 / 10, 14 / 10, 14 / 10, 6 / 10],
           [16 / 10, 16 / 10, 24 / 10, 24 / 10, 16 / 10],
           [26 / 10, 26 / 10, 34 / 10, 34 / 10, 26 / 10 :: real]] = length [1, 2, 3 :: real] \<and>
   hd (zip [6 / 10, 6 / 10, 14 / 10, 14 / 10, 6 / 10 :: real] [0, 5, 5, 0, 0 :: real]) =
     last (zip [6 / 10, 6 / 10, 14 / 10, 14 / 10, 6 / 10 :: real] [0, 5, 5, 0, 0 :: real])"
proof -
  have r: "bars [1, 2, 3] [5, 7, 2] (8 / 10) 0 =
     Inr ([[6 / 10, 6 / 10, 14 / 10, 14 / 10, 6 / 10],
           [16 / 10, 16 / 10, 24 / 10, 24 / 10, 16 / 10],
           [26 / 10, 26 / 10, 34 / 10, 34 / 10, 26 / 10]],
          [[0, 5, 5, 0, 0], [0, 7, 7, 0, 0], [0, 2, 2, 0, 0]])"
    by (simp add: bars_def py_div_def Let_def getitem_def eval_nat_numeral)
  from bars_closed_polygons [OF r] r show ?thesis by simp
qed



section \<open>Rounding to a float\<close>

lemma find_upto:
  assumes "lo \<le> e" and "e \<le> hi" and "P e" and "\<And>j. lo \<le> j \<Longrightarrow> j < e \<Longrightarrow> \<not> P j"
  shows "List.find P [lo .. hi] = Some e"
  unfolding find_Some_iff
proof (intro exI [of _ "nat (e - lo)"] conjI allI impI)
  show "nat (e - lo) < length [lo .. hi]"
    using assms(1,2) by simp
  have nth: "[lo .. hi] ! nat (e - lo) = e"
    using assms(1,2) by simp
  show "P ([lo .. hi] ! nat (e - lo))"
    using assms(3) by (simp only: nth)
  show "e = [lo .. hi] ! nat (e - lo)"
    by (simp only: nth)
  fix j assume j: "j < nat (e - lo)"
  then have lt: "lo + int j < e" by linarith
  with assms(2) have nj: "[lo .. hi] ! j = lo + int j" by simp
  from assms(4) [of "lo + int j"] lt show "\<not> P ([lo .. hi] ! j)"
    by (simp only: nj) simp
qed

text \<open>
  The exponent of the last place of \<open>x\<close> is \<open>e\<close> when \<open>2\<^sup>e\<^sup>+\<^sup>5\<^sup>2 \<le> |x| < 2\<^sup>e\<^sup>+\<^sup>5\<^sup>3\<close>, and
  \<open>-1074\<close> below the normal range.
\<close>

lemma ulp_exponent_eq:
  assumes "- 1074 \<le> e" and "e \<le> 971" and "\<bar>x\<bar> < 2 powi (e + 53)"
    and "e = - 1074 \<or> 2 powi (e + 52) \<le> \<bar>x\<bar>"
  shows "ulp_exponent x = Some e"
  unfolding ulp_exponent_def
proof (rule find_upto [OF assms(1,2)])
  show "\<bar>x\<bar> < 2 powi (e + 53)" by (rule assms(3))
next
  fix j :: int assume j: "- 1074 \<le> j" "j < e"
  with assms(4) have lo: "2 powi (e + 52) \<le> \<bar>x\<bar>" by auto
  from j have "(2::real) powi (j + 53) \<le> 2 powi (e + 52)"
    by (intro power_int_increasing) simp_all
  with lo show "\<not> \<bar>x\<bar> < 2 powi (j + 53)" by linarith
qed

lemma round_double_eq:
  assumes "- 1074 \<le> e" and "e \<le> 971" and "\<bar>x\<bar> < 2 powi (e + 53)"
    and "e = - 1074 \<or> 2 powi (e + 52) \<le> \<bar>x\<bar>"
    and "round_half_even (x / 2 powi e) = n" and "\<bar>n\<bar> < 2 ^ 53 \<or> e < 971"
  shows "round_double x = Fin (of_int n * 2 powi e)"
  using assms(5,6)
  by (auto simp: round_double_def ulp_exponent_eq [OF assms(1-4)] Let_def)

lemma round_double_0: "round_double 0 = Fin 0"
  using round_double_eq [of "- 1074" 0 0] by (simp add: round_half_even_def)

text \<open>The roundings that the examples below go through.\<close>

lemma round_double_1: "round_double 1 = Fin 1"
  using round_double_eq [of "- 52" 1 "2 ^ 52"]
  by (simp add: round_half_even_def power_int_minus field_simps)

lemma round_double_neg1: "round_double (- 1) = Fin (- 1)"
  using round_double_eq [of "- 52" "- 1" "- (2 ^ 52)"]
  by (simp add: round_half_even_def power_int_minus field_simps)

lemma round_double_2: "round_double 2 = Fin 2"
  using round_double_eq [of "- 51" 2 "2 ^ 52"]
  by (simp add: round_half_even_def power_int_minus field_simps)

lemma round_double_3: "round_double 3 = Fin 3"
  using round_double_eq [of "- 51" 3 "3 * 2 ^ 51"]
  by (simp add: round_half_even_def power_int_minus field_simps)

lemma round_double_19: "round_double 19 = Fin 19"
  using round_double_eq [of "- 48" 19 "19 * 2 ^ 48"]
  by (simp add: round_half_even_def power_int_minus field_simps)

lemma round_double_20: "round_double 20 = Fin 20"
  using round_double_eq [of "- 48" 20 "20 * 2 ^ 48"]
  by (simp add: round_half_even_def power_int_minus field_simps)

lemma round_double_1e20_1: "round_double 100000000000000000001 = Fin 100000000000000000000"
  using round_double_eq [of 14 100000000000000000001 6103515625000000]
  by (simp add: round_half_even_def)

lemma round_double_1e20_2: "round_double 100000000000000000002 = Fin 100000000000000000000"
  using round_double_eq [of 14 100000000000000000002 6103515625000000]
  by (simp add: round_half_even_def)

lemma round_double_1e16: "round_double 10000000000000000 = Fin 10000000000000000"
  using round_double_eq [of 1 10000000000000000 5000000000000000]
  by (simp add: round_half_even_def)

lemma round_double_1e16_1: "round_double 10000000000000001 = Fin 10000000000000000"
  using round_double_eq [of 1 10000000000000001 5000000000000000]
  by (simp add: round_half_even_def)

lemma round_double_delta:
  "round_double (199999999999999999 / 20) = Fin 10000000000000000"
  using round_double_eq [of 1 "199999999999999999 / 20" 5000000000000000]
  by (simp add: round_half_even_def)

lemma round_double_quotient:
  "round_double (100000000000000000 / 100000000000000001) = Fin 1"
  using round_double_eq [of "- 53" "100000000000000000 / 100000000000000001" "2 ^ 53"]
  by (simp add: round_half_even_def power_int_minus field_simps)

section \<open>The histogram\<close>

subsection \<open>Minimum, maximum and equal samples\<close>

lemma fold_min_mem:
  "fold (\<lambda>item minitem. if py_lt item minitem then item else minitem) xs x \<in> set (x # xs)"
  by (induction xs arbitrary: x) (simp, fastforce)

lemma fold_max_mem:
  "fold (\<lambda>item maxitem. if py_gt item maxitem then item else maxitem) xs x \<in> set (x # xs)"
  by (induction xs arbitrary: x) (simp, fastforce)

lemma py_min_mem: "data \<noteq> [] \<Longrightarrow> \<exists>m. py_min data = Inr m \<and> m \<in> set data"
  using fold_min_mem by (cases data) auto

lemma py_max_mem: "data \<noteq> [] \<Longrightarrow> \<exists>M. py_max data = Inr M \<and> M \<in> set data"
  using fold_max_mem by (cases data) auto

lemma py_eq_common: "py_eq a v \<Longrightarrow> py_eq b v \<Longrightarrow> py_eq a b"
  by (auto simp: py_eq_def split: option.splits)

lemma normalize_equal: "py_eq el M \<Longrightarrow> normalize m M bins el = Inr (PyInt (bins - 1))"
  by (simp add: normalize_def)

lemma comprehension_total:
  "(\<forall>el \<in> set xs. f el = Inr (g el)) \<Longrightarrow> comprehension f xs = Inr (map g xs)"
  by (induction xs) simp_all

lemma count_loop_replicate:
  assumes "0 \<le> k" and "k < int (length h)"
  shows "count_loop (replicate n k) h = Inr (h[nat k := h ! nat k + int n])"
  using assms
proof (induction n arbitrary: h)
  case 0
  then show ?case by simp
next
  case (Suc n)
  let ?h = "h[nat k := h ! nat k + 1]"
  from Suc.prems have "k < int (length ?h)" by simp
  from Suc.IH [OF Suc.prems(1) this] Suc.prems
  show ?case by (simp add: list_index_def add.assoc)
qed

lemma count_loop_error: "count_loop idxs h = Inl e \<Longrightarrow> e = IndexError"
  by (induction idxs arbitrary: h) (auto simp: list_index_def split: if_splits sum.splits)

text \<open>What \<open>hist_data\<close> does once every sample has been normalized to \<open>bins - 1\<close>.\<close>

lemma hist_data_equal_samples:
  assumes "data \<noteq> []" and "py_min data = Inr m" and "py_max data = Inr M"
    and "\<forall>el \<in> set data. py_eq el M"
  shows "comprehension (normalize m M bins) data =
           Inr (replicate (length data) (PyInt (bins - 1)))"
    and "hist_data linspace data bins =
           (case count_loop (replicate (length data) (bins - 1)) (replicate (nat bins) 0) of
              Inl e \<Rightarrow> Inl e
            | Inr histy \<Rightarrow> Inr (linspace m M bins, histy))"
proof -
  have "comprehension (normalize m M bins) data = Inr (map (\<lambda>el. PyInt (bins - 1)) data)"
    by (rule comprehension_total) (simp add: normalize_equal assms(4))
  then show n: "comprehension (normalize m M bins) data =
      Inr (replicate (length data) (PyInt (bins - 1)))"
    by (simp add: map_replicate_const)
  have "comprehension py_int (replicate (length data) (PyInt (bins - 1))) =
      Inr (map (\<lambda>el. bins - 1) (replicate (length data) (PyInt (bins - 1))))"
    by (rule comprehension_total) simp
  then have i: "comprehension py_int (replicate (length data) (PyInt (bins - 1))) =
      Inr (replicate (length data) (bins - 1))"
    by simp
  show "hist_data linspace data bins =
           (case count_loop (replicate (length data) (bins - 1)) (replicate (nat bins) 0) of
              Inl e \<Rightarrow> Inl e
            | Inr histy \<Rightarrow> Inr (linspace m M bins, histy))"
    using assms(1) by (simp add: hist_data_def assms(2,3) n i)
qed

subsection \<open>Samples whose index is rounded up to \<open>bins\<close>\<close>

text \<open>
  Claim C3. The claim says that for every sample list that is not empty and every
  \<open>bins \<ge> 1\<close> the counts of \<open>hist_data\<close> have length \<open>bins\<close> and sum to the number of
  samples. The code does not reach the counts on the samples \<open>[-1e20, 1.0, 2.0]\<close> with 3
  buckets, nor on \<open>[0, 10**17, 10**17 + 1]\<close> with 2: the quotient of a sample below the
  maximum rounds to 1.0, its index is \<open>bins\<close>, and \<open>histy[bins]\<close> raises \<open>IndexError\<close>.
\<close>

theorem hist_data_index_error:
  "hist_data linspace
      [PyFloat (Fin (- 100000000000000000000)), PyFloat (Fin 1), PyFloat (Fin 2)] 3
     = Inl IndexError \<and>
   normalize (PyFloat (Fin (- 100000000000000000000))) (PyFloat (Fin 2)) 3 (PyFloat (Fin 1))
     = Inr (PyFloat (Fin 3)) \<and>
   hist_data linspace [PyInt 0, PyInt 100000000000000000, PyInt 100000000000000001] 2
     = Inl IndexError \<and>
   normalize (PyInt 0) (PyInt 100000000000000001) 2 (PyInt 100000000000000000)
     = Inr (PyFloat (Fin 2))"
proof -
  have a: "normalize (PyFloat (Fin (- 100000000000000000000))) (PyFloat (Fin 2)) 3
      (PyFloat (Fin 1)) = Inr (PyFloat (Fin 3))"
    by (simp add: normalize_def py_eq_def round_double_1e20_1 round_double_1e20_2
          round_double_1 round_double_3)
  have b: "normalize (PyInt 0) (PyInt 100000000000000001) 2 (PyInt 100000000000000000)
      = Inr (PyFloat (Fin 2))"
    by (simp add: normalize_def py_eq_def round_double_quotient round_double_2)
  have c: "hist_data linspace
      [PyFloat (Fin (- 100000000000000000000)), PyFloat (Fin 1), PyFloat (Fin 2)] 3
     = Inl IndexError"
    by (simp add: hist_data_def py_lt_def py_gt_def normalize_def py_eq_def
          round_double_0 round_double_1 round_double_3 round_double_1e20_1
          round_double_1e20_2 list_index_def)
  have d: "hist_data linspace [PyInt 0, PyInt 100000000000000000, PyInt 100000000000000001] 2
     = Inl IndexError"
    by (simp add: hist_data_def py_lt_def py_gt_def normalize_def py_eq_def
          round_double_0 round_double_2 round_double_quotient list_index_def)
  from a b c d show ?thesis by simp
qed

subsection \<open>Equal samples\<close>

text \<open>
  Claim C4 as stated fails: on four equal samples \<open>hist_data\<close> does not fail, it returns the
  counts \<open>[0, 0, 0, 4]\<close>. Four values evenly spaced from 1 to 1 stand for the result of
  \<open>linspace\<close>.
\<close>

theorem hist_data_identical_counterexample:
  "[PyInt 1, PyInt 1, PyInt 1, PyInt 1] \<noteq> [] \<and>
   py_min [PyInt 1, PyInt 1, PyInt 1, PyInt 1] = Inr (PyInt 1) \<and>
   py_max [PyInt 1, PyInt 1, PyInt 1, PyInt 1] = Inr (PyInt 1) \<and>
   hist_data (\<lambda>m M n. replicate (nat n) m) [PyInt 1, PyInt 1, PyInt 1, PyInt 1] 4 =
     Inr ([PyInt 1, PyInt 1, PyInt 1, PyInt 1], [0, 0, 0, 4])"
  by (simp add: hist_data_def py_lt_def py_gt_def normalize_def py_eq_def list_index_def
        eval_nat_numeral)

text \<open>
  Claim C4, as amended. When all samples are equal, minimum and maximum are samples and
  equal, every sample takes the branch \<open>bins - 1\<close> of the normalization, whose division is
  not evaluated, and \<open>hist_data\<close> does not fail with \<open>ZeroDivisionError\<close>, whatever \<open>bins\<close>
  is.
\<close>

theorem hist_data_identical_normalize:
  assumes "data \<noteq> []" and "\<forall>el \<in> set data. py_eq el v"
  shows "\<exists>m M. py_min data = Inr m \<and> py_max data = Inr M \<and> m \<in> set data \<and> M \<in> set data \<and>
     py_eq m v \<and> py_eq M v \<and> py_eq m M \<and>
     comprehension (normalize m M bins) data =
       Inr (replicate (length data) (PyInt (bins - 1))) \<and>
     hist_data linspace data bins \<noteq> Inl ZeroDivisionError"
proof -
  from py_min_mem [OF assms(1)] obtain m where m: "py_min data = Inr m" "m \<in> set data"
    by blast
  from py_max_mem [OF assms(1)] obtain M where M: "py_max data = Inr M" "M \<in> set data"
    by blast
  from assms(2) m(2) M(2) have mv: "py_eq m v" and Mv: "py_eq M v" by blast+
  have all: "\<forall>el \<in> set data. py_eq el M"
    using assms(2) Mv by (blast intro: py_eq_common)
  note h = hist_data_equal_samples [OF assms(1) m(1) M(1) all]
  have "hist_data linspace data bins \<noteq> Inl ZeroDivisionError"
    unfolding h(2) by (auto split: sum.splits dest: count_loop_error)
  with m M mv Mv h(1) py_eq_common [OF mv Mv] show ?thesis by blast
qed

text \<open>Three samples equal to 7, an \<open>int\<close> among them, and five buckets.\<close>

theorem hist_data_identical_normalize_witness:
  "[PyFloat (Fin 7), PyInt 7, PyFloat (Fin 7)] \<noteq> [] \<and>
   py_eq (PyFloat (Fin 7)) (PyInt 7) \<and> py_eq (PyInt 7) (PyInt 7) \<and>
   comprehension (normalize (PyFloat (Fin 7)) (PyFloat (Fin 7)) 5)
       [PyFloat (Fin 7), PyInt 7, PyFloat (Fin 7)] = Inr [PyInt 4, PyInt 4, PyInt 4] \<and>
   hist_data (\<lambda>m M n. replicate (nat n) m) [PyFloat (Fin 7), PyInt 7, PyFloat (Fin 7)] 5
     \<noteq> Inl ZeroDivisionError"
proof -
  have h1: "[PyFloat (Fin 7), PyInt 7, PyFloat (Fin 7)] \<noteq> []" by simp
  have h2: "\<forall>el \<in> set [PyFloat (Fin 7), PyInt 7, PyFloat (Fin 7)]. py_eq el (PyInt 7)"
    by (simp add: py_eq_def)
  from hist_data_identical_normalize [OF h1 h2, of 5 "\<lambda>m M n. replicate (nat n) m"]
  show ?thesis
    by (simp add: py_lt_def py_gt_def py_eq_def eval_nat_numeral)
qed

text \<open>
  Claim C10. When all samples are equal and \<open>bins \<ge> 1\<close>, \<open>hist_data\<close> returns: every
  sample is normalized to \<open>bins - 1\<close> by the branch without division, the last bucket counts
  all the samples and every other bucket counts none.
\<close>

theorem hist_data_identical:
  assumes "data \<noteq> []" and "\<forall>el \<in> set data. py_eq el v" and "1 \<le> bins"
  shows "\<exists>m M. py_min data = Inr m \<and> py_max data = Inr M \<and> m \<in> set data \<and> M \<in> set data \<and>
     hist_data linspace data bins =
       Inr (linspace m M bins, (replicate (nat bins) 0)[nat (bins - 1) := int (length data)]) \<and>
     (\<forall>el \<in> set data. normalize m M bins el = Inr (PyInt (bins - 1)))"
proof -
  from py_min_mem [OF assms(1)] obtain m where m: "py_min data = Inr m" "m \<in> set data"
    by blast
  from py_max_mem [OF assms(1)] obtain M where M: "py_max data = Inr M" "M \<in> set data"
    by blast
  from assms(2) M(2) have Mv: "py_eq M v" by blast
  have all: "\<forall>el \<in> set data. py_eq el M"
    using assms(2) Mv by (blast intro: py_eq_common)
  note h = hist_data_equal_samples [OF assms(1) m(1) M(1) all]
  have k: "0 \<le> bins - 1" "bins - 1 < int (length (replicate (nat bins) (0::int)))"
    using assms(3) by simp_all
  have "hist_data linspace data bins =
      Inr (linspace m M bins, (replicate (nat bins) 0)[nat (bins - 1) := int (length data)])"
    unfolding h(2) count_loop_replicate [OF k] using assms(3) by simp
  moreover have "\<forall>el \<in> set data. normalize m M bins el = Inr (PyInt (bins - 1))"
    using all by (simp add: normalize_equal)
  ultimately show ?thesis using m M by blast
qed

text \<open>Three samples equal to 7 fall into the last of five buckets.\<close>

theorem hist_data_identical_witness:
  "[PyFloat (Fin 7), PyInt 7, PyFloat (Fin 7)] \<noteq> [] \<and> (1 :: int) \<le> 5 \<and>
   py_eq (PyFloat (Fin 7)) (PyInt 7) \<and> py_eq (PyInt 7) (PyInt 7) \<and>
   hist_data (\<lambda>m M n. replicate (nat n) m) [PyFloat (Fin 7), PyInt 7, PyFloat (Fin 7)] 5 =
     Inr (replicate 5 (PyFloat (Fin 7)), [0, 0, 0, 0, 3])"
proof -
  have h1: "[PyFloat (Fin 7), PyInt 7, PyFloat (Fin 7)] \<noteq> []" by simp
  have h2: "\<forall>el \<in> set [PyFloat (Fin 7), PyInt 7, PyFloat (Fin 7)]. py_eq el (PyInt 7)"
    by (simp add: py_eq_def)
  have h3: "(1 :: int) \<le> 5" by simp
  from hist_data_identical [OF h1 h2 h3, of "\<lambda>m M n. replicate (nat n) m"]
  show ?thesis
    by (simp add: py_lt_def py_gt_def py_eq_def eval_nat_numeral)
qed

section \<open>The margin below the base limit\<close>

lemma py_sub_float:
  "py_sub (PyFloat (Fin a)) (PyFloat (Fin b)) = Inr (PyFloat (round_double (a - b)))"
  by simp

lemma fold_min_least:
  assumes "\<forall>v \<in> set (x # xs). num_key v \<noteq> None"
  shows "\<forall>v \<in> set (x # xs).
           \<not> py_lt v (fold (\<lambda>item minitem. if py_lt item minitem then item else minitem) xs x)"
  using assms
proof (induction xs arbitrary: x)
  case Nil
  then show ?case by (auto simp: py_lt_def split: option.splits)
next
  case (Cons a xs)
  let ?f = "\<lambda>item minitem. if py_lt item minitem then item else minitem"
  let ?x = "?f a x"
  from Cons.prems have keys: "\<forall>v \<in> set (?x # xs). num_key v \<noteq> None" by auto
  from Cons.IH [OF keys] have ih: "\<forall>v \<in> set (?x # xs). \<not> py_lt v (fold ?f xs ?x)" .
  then have top: "\<not> py_lt ?x (fold ?f xs ?x)" by simp
  from Cons.prems have ka: "num_key a \<noteq> None" and kx: "num_key x \<noteq> None" by simp_all
  have up: "\<And>v r. \<not> py_lt v ?x \<Longrightarrow> \<not> py_lt ?x r \<Longrightarrow> \<not> py_lt v r"
    using ka kx by (auto simp: py_lt_def split: option.splits if_splits)
  have ax: "\<not> py_lt a ?x" "\<not> py_lt x ?x"
    by (auto simp: py_lt_def split: option.splits)
  from up [OF ax(1) top] up [OF ax(2) top] ih show ?case by simp
qed

lemma fold_max_greatest:
  assumes "\<forall>v \<in> set (x # xs). num_key v \<noteq> None"
  shows "\<forall>v \<in> set (x # xs).
           \<not> py_gt v (fold (\<lambda>item maxitem. if py_gt item maxitem then item else maxitem) xs x)"
  using assms
proof (induction xs arbitrary: x)
  case Nil
  then show ?case by (auto simp: py_gt_def py_lt_def split: option.splits)
next
  case (Cons a xs)
  let ?f = "\<lambda>item maxitem. if py_gt item maxitem then item else maxitem"
  let ?x = "?f a x"
  from Cons.prems have keys: "\<forall>v \<in> set (?x # xs). num_key v \<noteq> None" by auto
  from Cons.IH [OF keys] have ih: "\<forall>v \<in> set (?x # xs). \<not> py_gt v (fold ?f xs ?x)" .
  then have top: "\<not> py_gt ?x (fold ?f xs ?x)" by simp
  from Cons.prems have ka: "num_key a \<noteq> None" and kx: "num_key x \<noteq> None" by simp_all
  have up: "\<And>v r. \<not> py_gt v ?x \<Longrightarrow> \<not> py_gt ?x r \<Longrightarrow> \<not> py_gt v r"
    using ka kx by (auto simp: py_gt_def py_lt_def split: option.splits if_splits)
  have ax: "\<not> py_gt a ?x" "\<not> py_gt x ?x"
    by (auto simp: py_gt_def py_lt_def split: option.splits)
  from up [OF ax(1) top] up [OF ax(2) top] ih show ?case by simp
qed

text \<open>The limits are values of the column, and its least and greatest when it has no NaN.\<close>

lemma update_bar_xlim_limits:
  assumes "update_bar_xlim y = (Some lo, Some hi)"
  shows "Some lo \<in> set y \<and> Some hi \<in> set y \<and>
     ((\<forall>v. Some v \<in> set y \<longrightarrow> num_key v \<noteq> None) \<longrightarrow>
      (\<forall>v. Some v \<in> set y \<longrightarrow> \<not> py_lt v lo \<and> \<not> py_gt v hi))"
proof -
  let ?vs = "concat (map (\<lambda>el. case el of None \<Rightarrow> [] | Some v \<Rightarrow> [v]) y)"
  have vs: "\<And>v. v \<in> set ?vs \<longleftrightarrow> Some v \<in> set y"
    by (auto split: option.splits)
  from assms obtain x xs where c: "?vs = x # xs"
    by (cases ?vs) (auto simp: update_bar_xlim_def min_default_def Let_def)
  from assms c have lo: "lo = fold (\<lambda>item minitem. if py_lt item minitem then item else minitem) xs x"
    and hi: "hi = fold (\<lambda>item maxitem. if py_gt item maxitem then item else maxitem) xs x"
    by (simp_all add: update_bar_xlim_def min_default_def max_default_def Let_def)
  have "lo \<in> set ?vs" unfolding c lo by (rule fold_min_mem)
  moreover have "hi \<in> set ?vs" unfolding c hi by (rule fold_max_mem)
  moreover have "(\<forall>v. Some v \<in> set y \<longrightarrow> num_key v \<noteq> None) \<longrightarrow>
      (\<forall>v. Some v \<in> set y \<longrightarrow> \<not> py_lt v lo \<and> \<not> py_gt v hi)"
  proof
    assume "\<forall>v. Some v \<in> set y \<longrightarrow> num_key v \<noteq> None"
    then have k: "\<forall>v \<in> set (x # xs). num_key v \<noteq> None"
      using vs c by metis
    from fold_min_least [OF k] fold_max_greatest [OF k]
    show "\<forall>v. Some v \<in> set y \<longrightarrow> \<not> py_lt v lo \<and> \<not> py_gt v hi"
      using vs c lo hi by metis
  qed
  ultimately show ?thesis using vs by blast
qed

text \<open>
  Claim C8 as stated fails. The single value \<open>10**16 + 1\<close> does not keep its lower bound:
  the margin is 0.0, and \<open>bar_lim[0] - 0.0\<close> converts the \<open>int\<close> to the float \<open>1e16\<close>. On
  \<open>[10**16, 21 * 10**16 - 1]\<close> the exact value of \<open>min - (max - min) / 20\<close> is positive, but
  the margin rounds to \<open>1e16\<close>, the difference is 0.0, and the lower bound stays \<open>10**16\<close>.
\<close>

theorem update_bar_ylim_counterexample:
  "update_bar_ylim [Some (PyInt 10000000000000001)] =
     Inr (Some (PyFloat (Fin 10000000000000000)), Some (PyInt 10000000000000001)) \<and>
   \<not> py_eq (PyFloat (Fin 10000000000000000)) (PyInt 10000000000000001) \<and>
   update_bar_ylim [Some (PyInt 10000000000000000), Some (PyInt 209999999999999999)] =
     Inr (Some (PyInt 10000000000000000), Some (PyInt 209999999999999999)) \<and>
   (0 :: real) < 10000000000000000 - (209999999999999999 - 10000000000000000) / 20"
  by (simp add: update_bar_ylim_def update_bar_xlim_def min_default_def max_default_def
        py_lt_def py_gt_def py_eq_def round_double_0 round_double_1e16 round_double_1e16_1
        round_double_delta)

text \<open>
  Claim C8, as amended. \<open>update_bar_ylim\<close> takes the limits of the values that are not
  missing, which are values of the column, and its least and greatest when none is a NaN;
  with no value both limits are \<open>None\<close>. Otherwise it evaluates
  \<open>delta = (max - min) / 20\<close> and \<open>min - delta\<close> in the arithmetic of the interpreter, exact
  on \<open>int\<close>s and rounded on floats; when no operation raises, the lower bound is
  \<open>min - delta\<close> exactly when that computed value is above 0, and the unmodified \<open>min\<close>
  otherwise. A single value that a float holds exactly has margin zero and a lower bound
  equal to it. A positive minimum never gives a lower bound that is not positive.
\<close>

theorem update_bar_ylim_margin:
  "(concat (map (\<lambda>el. case el of None \<Rightarrow> [] | Some v \<Rightarrow> [v]) y) = [] \<longrightarrow>
      update_bar_ylim y = Inr (None, None)) \<and>
   (\<forall>lo hi. update_bar_xlim y = (Some lo, Some hi) \<longrightarrow>
      Some lo \<in> set y \<and> Some hi \<in> set y \<and>
      ((\<forall>v. Some v \<in> set y \<longrightarrow> num_key v \<noteq> None) \<longrightarrow>
       (\<forall>v. Some v \<in> set y \<longrightarrow> \<not> py_lt v lo \<and> \<not> py_gt v hi))) \<and>
   (\<forall>lo hi d delta shrunk.
      update_bar_xlim y = (Some lo, Some hi) \<and> py_sub hi lo = Inr d \<and>
      py_truediv d (PyInt 20) = Inr delta \<and> py_sub lo delta = Inr shrunk \<longrightarrow>
      update_bar_ylim y =
        Inr (Some (if py_gt shrunk (PyInt 0) then shrunk else lo), Some hi)) \<and>
   (\<forall>r. round_double r = Fin r \<longrightarrow>
      py_sub (PyFloat (Fin r)) (PyFloat (Fin r)) = Inr (PyFloat (Fin 0)) \<and>
      py_truediv (PyFloat (Fin 0)) (PyInt 20) = Inr (PyFloat (Fin 0)) \<and>
      update_bar_ylim [Some (PyFloat (Fin r))] =
        Inr (Some (PyFloat (Fin r)), Some (PyFloat (Fin r)))) \<and>
   (\<forall>i. round_double (of_int i) = Fin (of_int i) \<longrightarrow>
      py_truediv (PyInt 0) (PyInt 20) = Inr (PyFloat (Fin 0)) \<and>
      (\<exists>lo'. update_bar_ylim [Some (PyInt i)] = Inr (Some lo', Some (PyInt i)) \<and>
         py_eq lo' (PyInt i))) \<and>
   (\<forall>lo hi lo' hi'.
      update_bar_xlim y = (Some lo, Some hi) \<and> py_gt lo (PyInt 0) \<and>
      update_bar_ylim y = Inr (Some lo', hi') \<longrightarrow> py_gt lo' (PyInt 0))"
proof -
  have none: "concat (map (\<lambda>el. case el of None \<Rightarrow> [] | Some v \<Rightarrow> [v]) y) = [] \<longrightarrow>
      update_bar_ylim y = Inr (None, None)"
  proof
    assume e: "concat (map (\<lambda>el. case el of None \<Rightarrow> [] | Some v \<Rightarrow> [v]) y) = []"
    have "update_bar_xlim y = (None, None)"
      unfolding update_bar_xlim_def Let_def e
      by (simp add: min_default_def max_default_def)
    then show "update_bar_ylim y = Inr (None, None)"
      by (simp add: update_bar_ylim_def)
  qed
  have limits: "\<forall>lo hi. update_bar_xlim y = (Some lo, Some hi) \<longrightarrow>
      Some lo \<in> set y \<and> Some hi \<in> set y \<and>
      ((\<forall>v. Some v \<in> set y \<longrightarrow> num_key v \<noteq> None) \<longrightarrow>
       (\<forall>v. Some v \<in> set y \<longrightarrow> \<not> py_lt v lo \<and> \<not> py_gt v hi))"
    using update_bar_xlim_limits by blast
  have margin: "\<forall>lo hi d delta shrunk.
      update_bar_xlim y = (Some lo, Some hi) \<and> py_sub hi lo = Inr d \<and>
      py_truediv d (PyInt 20) = Inr delta \<and> py_sub lo delta = Inr shrunk \<longrightarrow>
      update_bar_ylim y =
        Inr (Some (if py_gt shrunk (PyInt 0) then shrunk else lo), Some hi)"
    by (simp add: update_bar_ylim_def)
  have single_float: "\<forall>r. round_double r = Fin r \<longrightarrow>
      py_sub (PyFloat (Fin r)) (PyFloat (Fin r)) = Inr (PyFloat (Fin 0)) \<and>
      py_truediv (PyFloat (Fin 0)) (PyInt 20) = Inr (PyFloat (Fin 0)) \<and>
      update_bar_ylim [Some (PyFloat (Fin r))] =
        Inr (Some (PyFloat (Fin r)), Some (PyFloat (Fin r)))"
    by (simp add: update_bar_ylim_def update_bar_xlim_def min_default_def max_default_def
          round_double_0 round_double_20)
  have single_int: "\<forall>i. round_double (of_int i) = Fin (of_int i) \<longrightarrow>
      py_truediv (PyInt 0) (PyInt 20) = Inr (PyFloat (Fin 0)) \<and>
      (\<exists>lo'. update_bar_ylim [Some (PyInt i)] = Inr (Some lo', Some (PyInt i)) \<and>
         py_eq lo' (PyInt i))"
    by (simp add: update_bar_ylim_def update_bar_xlim_def min_default_def max_default_def
          round_double_0 py_eq_def)
  have positive: "\<forall>lo hi lo' hi'.
      update_bar_xlim y = (Some lo, Some hi) \<and> py_gt lo (PyInt 0) \<and>
      update_bar_ylim y = Inr (Some lo', hi') \<longrightarrow> py_gt lo' (PyInt 0)"
    by (auto simp: update_bar_ylim_def split: sum.splits if_splits)
  from none limits margin single_float single_int positive show ?thesis by blast
qed

text \<open>
  A margin that is kept, one that would cross zero, and a column of missing values.
\<close>

theorem update_bar_ylim_margin_witness:
  "update_bar_xlim [Some (PyInt 20), None, Some (PyInt 40)] = (Some (PyInt 20), Some (PyInt 40)) \<and>
   py_sub (PyInt 40) (PyInt 20) = Inr (PyInt 20) \<and>
   py_truediv (PyInt 20) (PyInt 20) = Inr (PyFloat (Fin 1)) \<and>
   py_sub (PyInt 20) (PyFloat (Fin 1)) = Inr (PyFloat (Fin 19)) \<and>
   py_gt (PyFloat (Fin 19)) (PyInt 0) \<and>
   update_bar_ylim [Some (PyInt 20), None, Some (PyInt 40)] =
     Inr (Some (PyFloat (Fin 19)), Some (PyInt 40)) \<and>
   update_bar_ylim [Some (PyInt 1), None, Some (PyInt 41)] =
     Inr (Some (PyInt 1), Some (PyInt 41)) \<and>
   update_bar_ylim [None, None] = Inr (None, None)"
proof -
  have x: "update_bar_xlim [Some (PyInt 20), None, Some (PyInt 40)] =
      (Some (PyInt 20), Some (PyInt 40))"
    by (simp add: update_bar_xlim_def min_default_def max_default_def py_lt_def py_gt_def)
  have d: "py_sub (PyInt 40) (PyInt 20) = Inr (PyInt 20)" by simp
  have q: "py_truediv (PyInt 20) (PyInt 20) = Inr (PyFloat (Fin 1))"
    by (simp add: round_double_1)
  have s: "py_sub (PyInt 20) (PyFloat (Fin 1)) = Inr (PyFloat (Fin 19))"
    by (simp add: round_double_20 round_double_19)
  have g: "py_gt (PyFloat (Fin 19)) (PyInt 0)"
    by (simp add: py_gt_def py_lt_def)
  note t = update_bar_ylim_margin [of "[Some (PyInt 20), None, Some (PyInt 40)]"]
  from t x d q s have "update_bar_ylim [Some (PyInt 20), None, Some (PyInt 40)] =
      Inr (Some (if py_gt (PyFloat (Fin 19)) (PyInt 0) then PyFloat (Fin 19) else PyInt 20),
           Some (PyInt 40))"
    by blast
  with g have a: "update_bar_ylim [Some (PyInt 20), None, Some (PyInt 40)] =
      Inr (Some (PyFloat (Fin 19)), Some (PyInt 40))"
    by simp
  have b: "update_bar_ylim [Some (PyInt 1), None, Some (PyInt 41)] =
      Inr (Some (PyInt 1), Some (PyInt 41))"
    by (simp add: update_bar_ylim_def update_bar_xlim_def min_default_def max_default_def
          py_lt_def py_gt_def round_double_1 round_double_2 round_double_neg1)
  have c: "update_bar_ylim [None, None] = Inr (None, None)"
    using update_bar_ylim_margin [of "[None, None]"] by simp
  from x d q s g a b c show ?thesis by simp
qed

end
